theory Spec2Isabelle
  imports Complex_Main
begin

section \<open>Values, errors and the numpy primitives the script uses\<close>

text \<open>
  The script \<^verbatim>\<open>paper/scripts/add_noise.py\<close> works on one-dimensional numpy arrays of
  64-bit floats. Floats are idealised as real numbers: \<open>+\<close>, \<open>*\<close>, \<open>/\<close>, \<open>floor\<close>,
  \<open>log10\<close> and \<open>10**x\<close> are the exact operations, and no rounding is modelled. An
  execution in which numpy itself would leave the finite numbers (a division by zero,
  \<open>log10\<close> of a non-positive number, the median or mean of an empty array give
  \<open>inf\<close> or \<open>nan\<close> and only a warning) is not followed further: the model stops it with
  \<open>NonFinite\<close>, which is therefore not a Python exception but the border of the model.
  A boolean array is an array whose entries are 0 or 1.
\<close>

datatype py_error = IndexError | ValueError | TypeError | ZeroDivisionError | NonFinite

type_synonym array = "real list"

text \<open>A Python tuple of arrays, each component possibly \<open>None\<close>.\<close>

type_synonym py_tuple = "array option list"

definition bind_err :: "py_error + 'a \<Rightarrow> ('a \<Rightarrow> py_error + 'b) \<Rightarrow> py_error + 'b" where
  "bind_err m f = (case m of Inl e \<Rightarrow> Inl e | Inr x \<Rightarrow> f x)"

text \<open>\<open>xs[i]\<close> with an integer index: a negative index counts from the end, an index
  outside the array raises.\<close>

definition getitem :: "'a list \<Rightarrow> int \<Rightarrow> py_error + 'a" where
  "getitem xs i =
     (if 0 \<le> i \<and> i < int (length xs) then Inr (xs ! nat i)
      else if i < 0 \<and> - int (length xs) \<le> i then Inr (xs ! nat (int (length xs) + i))
      else Inl IndexError)"

text \<open>\<open>np.argmax\<close> of a boolean array: the index of the first \<open>True\<close>, and 0 when
  there is none; an empty array raises.\<close>

fun first_true :: "bool list \<Rightarrow> nat option" where
  "first_true [] = None"
| "first_true (b # bs) = (if b then Some 0 else map_option Suc (first_true bs))"

definition argmax :: "bool list \<Rightarrow> py_error + int" where
  "argmax bs =
     (if bs = [] then Inl ValueError
      else Inr (case first_true bs of None \<Rightarrow> 0 | Some k \<Rightarrow> int k))"

text \<open>\<open>np.arange(n)\<close> for a float \<open>n\<close>: the integers \<open>0, 1, ...\<close> below \<open>n\<close>, so
  \<open>ceil(n)\<close> of them (none when \<open>n \<le> 0\<close>).\<close>

definition np_arange :: "real \<Rightarrow> nat list" where
  "np_arange n = [0..<nat \<lceil>n\<rceil>]"

section \<open>The wavelength grid: \<open>get_wave\<close>\<close>

text \<open>
  \<^verbatim>\<open>n = np.log10(wavemax/wavemin) / dloglam\<close>
  \<^verbatim>\<open>wave = 10**(np.log10(wavemin) + dloglam*np.arange(n))\<close>
  The arguments are Python numbers, so \<open>wavemax/wavemin\<close> raises for \<open>wavemin = 0\<close>.
\<close>

definition get_wave :: "real \<Rightarrow> real \<Rightarrow> real \<Rightarrow> py_error + array" where
  "get_wave wavemin wavemax dloglam =
     (if wavemin = 0 then Inl ZeroDivisionError
      else if wavemin < 0 \<or> wavemax \<le> 0 \<or> dloglam = 0 then Inl NonFinite
      else
        let n = log 10 (wavemax / wavemin) / dloglam
        in Inr (map (\<lambda>i. 10 powr (log 10 wavemin + dloglam * real i)) (np_arange n)))"

section \<open>More numpy and scipy primitives\<close>

text \<open>Indexing with a boolean array, \<open>xs[good]\<close>: the entries of \<open>xs\<close> where \<open>good\<close>
  holds; the two lengths must agree.\<close>

definition select :: "'a list \<Rightarrow> bool list \<Rightarrow> py_error + 'a list" where
  "select xs good =
     (if length xs = length good then Inr (map fst (filter snd (zip xs good)))
      else Inl IndexError)"

text \<open>\<open>np.bincount(x, weights, minlength)\<close> for non-negative \<open>x\<close> and weights of the
  same length: entry \<open>k\<close> sums the weights of the positions holding \<open>k\<close>; the result
  has \<open>max(minlength, max(x) + 1)\<close> entries.\<close>

definition bincount :: "int list \<Rightarrow> array \<Rightarrow> nat \<Rightarrow> array" where
  "bincount x weights minlength =
     map (\<lambda>k. sum_list (map snd (filter (\<lambda>p. fst p = int k) (zip x weights))))
       [0..<(if x = [] then minlength else max minlength (nat (Max (set x) + 1)))]"

text \<open>Elementwise operations on two one-dimensional arrays pair the entries; an
  array of length one is stretched, other shapes do not fit.\<close>

definition broadcast :: "array \<Rightarrow> array \<Rightarrow> py_error + (real \<times> real) list" where
  "broadcast xs ys =
     (if length xs = length ys then Inr (zip xs ys)
      else if length xs = 1 then Inr (map (\<lambda>y. (hd xs, y)) ys)
      else if length ys = 1 then Inr (map (\<lambda>x. (x, hd ys)) xs)
      else Inl ValueError)"

definition np_add :: "array \<Rightarrow> array \<Rightarrow> py_error + array" where
  "np_add xs ys = bind_err (broadcast xs ys) (\<lambda>ps. Inr (map (\<lambda>p. fst p + snd p) ps))"

definition np_multiply :: "array \<Rightarrow> array \<Rightarrow> py_error + array" where
  "np_multiply xs ys = bind_err (broadcast xs ys) (\<lambda>ps. Inr (map (\<lambda>p. fst p * snd p) ps))"

definition np_divide :: "array \<Rightarrow> array \<Rightarrow> py_error + array" where
  "np_divide xs ys =
     bind_err (broadcast xs ys)
       (\<lambda>ps. if list_ex (\<lambda>p. snd p = 0) ps then Inl NonFinite
             else Inr (map (\<lambda>p. fst p / snd p) ps))"

text \<open>\<open>arr != 0\<close> as an array of 0 and 1.\<close>

definition nonzero_mask :: "array \<Rightarrow> array" where
  "nonzero_mask xs = map (\<lambda>x. if x \<noteq> 0 then 1 else 0) xs"

text \<open>\<open>scipy.ndimage.binary_erosion(mask, border_value=1)\<close> on a one-dimensional
  array, with the default structuring element of three cells: a cell stays set when it
  and both neighbours are set; a neighbour beyond either end counts as set.\<close>

definition binary_erosion :: "bool list \<Rightarrow> bool list" where
  "binary_erosion m =
     map (\<lambda>j. (j = 0 \<or> m ! (j - 1)) \<and> m ! j \<and> (length m \<le> j + 1 \<or> m ! (j + 1)))
       [0..<length m]"

text \<open>\<open>np.median\<close>: the middle of the sorted values, the mean of the two middle ones
  for an even count, \<open>nan\<close> for none.\<close>

definition median :: "array \<Rightarrow> py_error + real" where
  "median xs =
     (if xs = [] then Inl NonFinite
      else
        let s = sort xs; n = length xs
        in Inr (if odd n then s ! (n div 2) else (s ! (n div 2 - 1) + s ! (n div 2)) / 2))"

definition np_log10 :: "array \<Rightarrow> py_error + array" where
  "np_log10 xs = (if list_ex (\<lambda>x. x \<le> 0) xs then Inl NonFinite else Inr (map (log 10) xs))"

section \<open>The rebinner: \<open>rebin_to_common\<close>\<close>

text \<open>The script's module-level constant, read inside \<open>rebin_to_common\<close>. The
  model takes it as the first argument of the functions that read it.\<close>

definition nbins_final :: nat where
  "nbins_final = 11400"

text \<open>What lines 84 to 134 compute and lines 136 to 164 use.\<close>

record overlap =
  bin_low :: "int list"
  good_low :: "bool list"
  bin_high :: "int list"
  good_high :: "bool list"
  percent_low :: real
  percent_high :: real

text \<open>
  Lines 110 to 131, the two edge cases, given the generic \<open>d_low\<close> and \<open>d_high\<close> of
  lines 93 to 96. The result is the pair \<open>(d_low, d_high)\<close>.
  \<^verbatim>\<open>if np.min(bin_low[good_low]) == 0: ...\<close>
  \<^verbatim>\<open>elif np.max(bin_high[good_high]) == (len(w_out) - 1): ...\<close>
\<close>

definition edge_offsets ::
  "array \<Rightarrow> array \<Rightarrow> real \<Rightarrow> int list \<Rightarrow> int list \<Rightarrow> real \<times> real \<Rightarrow> py_error + real \<times> real" where
  "edge_offsets w_in w_out l_min sel_low sel_high generic =
     (if Min (set sel_low) = 0 then
        bind_err (getitem w_out 0) (\<lambda>base.
        bind_err (argmax (map (\<lambda>w. l_min < w) (tl w_in))) (\<lambda>idx_in.
        bind_err (getitem w_in idx_in) (\<lambda>wi.
        bind_err (argmax (map (\<lambda>w. wi < w) w_out)) (\<lambda>am.
        let idx_out = am - 1 in
        bind_err (if idx_in = - 1 then getitem w_out (idx_out + 1) else Inr base) (\<lambda>base.
        let idx_in = (if idx_in = - 1 then idx_in + 1 else idx_in) in
        bind_err (getitem w_in idx_in) (\<lambda>wi.
        bind_err (getitem w_in (idx_in + 1)) (\<lambda>wi1.
        Inr (base - wi, wi1 - base))))))))
      else if Max (set sel_high) = int (length w_out) - 1 then
        bind_err (getitem w_out (- 1)) (\<lambda>l_max.
        bind_err (argmax (map (\<lambda>w. l_max < w) w_in)) (\<lambda>am.
        let idx_in = am - 1; idx_out = - 1 in
        bind_err (getitem w_out idx_out) (\<lambda>wo.
        bind_err (getitem w_in idx_in) (\<lambda>wi.
        bind_err (getitem w_in (idx_in + 1)) (\<lambda>wi1.
        Inr (wo - wi, wi1 - wo))))))
      else Inr generic)"

text \<open>
  Lines 84 to 134. \<open>None\<close> is the early return of line 108, when no input sample falls
  into a bin of the common grid.
\<close>

definition overlap_fractions :: "nat \<Rightarrow> array \<Rightarrow> array \<Rightarrow> py_error + overlap option" where
  "overlap_fractions nb w_in w_out =
     bind_err (getitem w_out 0) (\<lambda>l_min.
     bind_err (getitem w_out (- 1)) (\<lambda>l_max.
     bind_err (getitem w_out 1) (\<lambda>w1.
     let dl = w1 - l_min in
     bind_err (argmax (map (\<lambda>w. l_min < w) w_in)) (\<lambda>idx_in.
     bind_err (getitem w_in idx_in) (\<lambda>wi.
     bind_err (argmax (map (\<lambda>w. wi < w) w_out)) (\<lambda>idx_out.
     bind_err (getitem w_out idx_out) (\<lambda>wo.
     bind_err (getitem w_in (idx_in + 1)) (\<lambda>wi1.
     if dl = 0 then Inl NonFinite
     else
       let b_low = map (\<lambda>w. \<lfloor>(w - l_min) / dl\<rfloor>) w_in;
           g_low = map (\<lambda>b. 0 \<le> b \<and> b < int nb) b_low;
           b_high = map (\<lambda>b. b + 1) b_low;
           g_high = map (\<lambda>b. 0 \<le> b \<and> b < int nb) b_high
       in
         if \<not> list_ex id g_low \<or> \<not> list_ex id g_high then Inr None
         else
           bind_err (select b_low g_low) (\<lambda>sel_low.
           bind_err (select b_high g_high) (\<lambda>sel_high.
           bind_err (edge_offsets w_in w_out l_min sel_low sel_high (wo - wi, wi1 - wo)) (\<lambda>d.
           Inr (Some \<lparr>bin_low = b_low, good_low = g_low, bin_high = b_high,
                      good_high = g_high, percent_low = fst d / dl,
                      percent_high = snd d / dl\<rparr>))))))))))))"

text \<open>Lines 141 and 142, and again lines 144 and 145: the two weighted histograms over
  the low and the high bins.\<close>

definition binned :: "overlap \<Rightarrow> array \<Rightarrow> real \<Rightarrow> real \<Rightarrow> nat \<Rightarrow> py_error + array \<times> array" where
  "binned ov xs f_low f_high n =
     bind_err (select (bin_low ov) (good_low ov)) (\<lambda>bl.
     bind_err (select xs (good_low ov)) (\<lambda>x_low.
     bind_err (select (bin_high ov) (good_high ov)) (\<lambda>bh.
     bind_err (select xs (good_high ov)) (\<lambda>x_high.
     Inr (bincount bl (map (\<lambda>x. x * f_low) x_low) n,
          bincount bh (map (\<lambda>x. x * f_high) x_high) n)))))"

text \<open>Lines 158 to 162: \<open>nz = np.abs(var_out) > 1e-2; iv_out[nz] = 1 / var_out[nz]\<close>.\<close>

definition invert_back :: "array \<Rightarrow> array" where
  "invert_back var_out = map (\<lambda>v. if \<bar>v\<bar> > 1 / 100 then 1 / v else v) var_out"

text \<open>Lines 141 to 164, on the variance array \<open>var\<close>. The returned mask is the boolean
  array of the erosion.\<close>

definition accumulate :: "array \<Rightarrow> array \<Rightarrow> array \<Rightarrow> overlap \<Rightarrow> py_error + py_tuple" where
  "accumulate w_out fl var ov =
     bind_err (binned ov fl (percent_low ov) (percent_high ov) (length w_out)) (\<lambda>c.
     bind_err (binned ov var ((percent_low ov)\<^sup>2) ((percent_high ov)\<^sup>2) (length w_out)) (\<lambda>v.
     bind_err (np_add (fst c) (snd c)) (\<lambda>fl_out.
     if length fl_out \<noteq> length w_out then Inl IndexError
     else
       let mask = map of_bool (binary_erosion (map (\<lambda>x. x \<noteq> 0) fl_out)) in
       bind_err (np_add (fst v) (snd v)) (\<lambda>var_out.
       bind_err (np_multiply (invert_back var_out) mask) (\<lambda>iv_masked.
       Inr [Some fl_out, Some iv_masked, Some mask])))))"

text \<open>Lines 136 to 139: \<open>var = iv; nz = iv != 0; var[nz] = 1 / var[nz]\<close>. \<open>var\<close> is the
  caller's array itself, so this is also what the caller's array holds afterwards.\<close>

definition invert_nonzero :: "array \<Rightarrow> array" where
  "invert_nonzero iv = map (\<lambda>v. if v \<noteq> 0 then 1 / v else v) iv"

text \<open>
  The function. Both early returns are \<open>return None, None\<close>, a tuple of two. The second
  component of the result is the content of the caller's array \<open>iv\<close> when the call
  ends. \<open>fl\<close> and \<open>iv\<close> are taken to be different arrays, as they are in the script.
\<close>

definition rebin_to_common ::
  "nat \<Rightarrow> array \<Rightarrow> array \<Rightarrow> array \<Rightarrow> array \<Rightarrow> nat \<Rightarrow> (py_error + py_tuple) \<times> array" where
  "rebin_to_common nb w_in w_out fl iv fl_idx =
     (if length w_in < 1 then (Inr [None, None], iv)
      else
        case overlap_fractions nb w_in w_out of
          Inl e \<Rightarrow> (Inl e, iv)
        | Inr None \<Rightarrow> (Inr [None, None], iv)
        | Inr (Some ov) \<Rightarrow>
            (let var = invert_nonzero iv in (accumulate w_out fl var ov, var)))"

text \<open>
  The pure formulation the specification asks the in-place one to agree with: the
  variance is a new array, the reciprocal of the inverse variance where that is not
  zero and zero where it is, and the caller's array is not touched.
\<close>

definition rebin_to_common_pure ::
  "nat \<Rightarrow> array \<Rightarrow> array \<Rightarrow> array \<Rightarrow> array \<Rightarrow> nat \<Rightarrow> py_error + py_tuple" where
  "rebin_to_common_pure nb w_in w_out fl iv fl_idx =
     (if length w_in < 1 then Inr [None, None]
      else
        case overlap_fractions nb w_in w_out of
          Inl e \<Rightarrow> Inl e
        | Inr None \<Rightarrow> Inr [None, None]
        | Inr (Some ov) \<Rightarrow> accumulate w_out fl (map (\<lambda>v. if v = 0 then 0 else 1 / v) iv) ov)"

section \<open>The noise injector: \<open>add_noise\<close>\<close>

text \<open>
  \<open>np.random.default_rng(seed)\<close> and the three draws the function makes. numpy's
  generator is a deterministic state machine; its algorithms are not part of the
  script, so they are parameters: each draw takes the generator's state and returns the
  sample with the next state. \<open>normal\<close> takes the location, the scale and the number
  of samples.
\<close>

record 'g sampler =
  default_rng :: "int \<Rightarrow> 'g"
  poisson :: "'g \<Rightarrow> array \<Rightarrow> array \<times> 'g"
  uniform :: "'g \<Rightarrow> real \<Rightarrow> real \<Rightarrow> real \<times> 'g"
  normal :: "'g \<Rightarrow> real \<Rightarrow> real \<Rightarrow> nat \<Rightarrow> array \<times> 'g"

text \<open>The module-level arrays that \<open>add_noise\<close> reads (lines 295 and 175 to 208).
  The functions take any extension of the record: whatever else the module holds.\<close>

record globals =
  fl_shift :: "array list"
  w_shift :: "array list"

definition mean :: "array \<Rightarrow> real" where
  "mean xs = sum_list xs / real (length xs)"

text \<open>
  The body of the loop, lines 182 to 211, for object \<open>i\<close> and generator state \<open>rng\<close>.
  The noise scale is a plain real number: where numpy would make it \<open>nan\<close> (the mean of
  an empty array) every array of the object is empty and the value reaches no output.
\<close>

definition noise_object ::
  "'g sampler \<Rightarrow> 'm globals_scheme \<Rightarrow> bool \<Rightarrow> 'g \<Rightarrow> nat \<Rightarrow>
   py_error + (array \<times> array) \<times> 'g" where
  "noise_object S G add_noise_flag rng i =
     bind_err (getitem (fl_shift G) (int i)) (\<lambda>flux.
     let (x_poisson, rng) =
           (if add_noise_flag then poisson S rng (map (max 0) flux) else (flux, rng)) in
     bind_err (getitem (w_shift G) (int i)) (\<lambda>w.
     bind_err (np_divide x_poisson w) (\<lambda>x_poisson.
     let var_poisson = x_poisson;
         signal = mean (map (\<lambda>x. x\<^sup>2) x_poisson);
         (snr_choice, rng) = uniform S rng (1 / 2) (3 / 2);
         noise_sigma = sqrt signal / snr_choice;
         (noise, rng) = normal S rng 0 noise_sigma (length flux);
         var_noise = noise_sigma\<^sup>2
     in
       if add_noise_flag then
         bind_err (np_add x_poisson noise) (\<lambda>fl_sim.
         bind_err (np_divide [1] (map (\<lambda>v. v + var_noise) var_poisson)) (\<lambda>iv.
         Inr ((fl_sim, iv), rng)))
       else
         bind_err (np_divide flux w) (\<lambda>fl_sim.
         Inr ((fl_sim, nonzero_mask fl_sim), rng)))))"

fun noise_loop ::
  "('g \<Rightarrow> nat \<Rightarrow> py_error + (array \<times> array) \<times> 'g) \<Rightarrow> nat list \<Rightarrow> 'g \<Rightarrow>
   array list \<times> array list \<Rightarrow> py_error + array list \<times> array list" where
  "noise_loop body [] rng acc = Inr acc"
| "noise_loop body (i # is) rng acc =
     bind_err (body rng i) (\<lambda>r.
       noise_loop body is (snd r) (fst acc @ [fst (fst r)], snd acc @ [snd (fst r)]))"

text \<open>
  \<^verbatim>\<open>def add_noise(fl, seed, add_noise=True)\<close>: the loop runs over
  \<open>range(len(fl_shift))\<close>, the module-level list, and the result is the pair
  \<open>(fl_noisy, iv_noisy)\<close>.
\<close>

definition add_noise ::
  "'g sampler \<Rightarrow> 'm globals_scheme \<Rightarrow> array list \<Rightarrow> int \<Rightarrow> bool \<Rightarrow>
   py_error + array list \<times> array list" where
  "add_noise S G fl seed add_noise_flag =
     noise_loop (noise_object S G add_noise_flag) [0..<length (fl_shift G)]
       (default_rng S seed) ([], [])"

section \<open>The batch driver and the renormaliser: \<open>rebin_all\<close>\<close>

text \<open>\<open>fl_1, iv_1, m = ...\<close>: unpacking into three names needs a tuple of three.\<close>

definition unpack3 :: "py_tuple \<Rightarrow> py_error + array option \<times> array option \<times> array option" where
  "unpack3 t = (case t of [a, b, c] \<Rightarrow> Inr (a, b, c) | _ \<Rightarrow> Inl ValueError)"

text \<open>Lines 230 to 234: the pair \<open>(norm_val, spec_val)\<close>. \<open>spectra_for_norm\<close> is
  \<open>None\<close> when the script runs without \<open>--renorm\<close>.\<close>

definition scale_inputs ::
  "array \<Rightarrow> array \<Rightarrow> array option \<Rightarrow> array \<Rightarrow> py_error + real \<times> real" where
  "scale_inputs w_scale waves_i spectra_for_norm fl_1 =
     bind_err (getitem waves_i 0) (\<lambda>w_first.
     bind_err (argmax (map (\<lambda>w. w_first < w) w_scale)) (\<lambda>norm_min.
     bind_err (getitem waves_i (- 1)) (\<lambda>w_last.
     bind_err (argmax (map (\<lambda>w. w_last < w) w_scale)) (\<lambda>norm_max.
     bind_err (case spectra_for_norm of None \<Rightarrow> Inl TypeError | Some s \<Rightarrow> Inr s) (\<lambda>s.
     bind_err (median (drop (nat norm_min) (take (nat norm_max) s))) (\<lambda>norm_val.
     bind_err (median (filter (\<lambda>x. x \<noteq> 0) fl_1)) (\<lambda>spec_val.
     Inr (norm_val, spec_val))))))))"

text \<open>Line 236: \<open>scale = norm_val / np.abs(spec_val)\<close>.\<close>

definition renorm_scale ::
  "array \<Rightarrow> array \<Rightarrow> array option \<Rightarrow> array \<Rightarrow> py_error + real" where
  "renorm_scale w_scale waves_i spectra_for_norm fl_1 =
     bind_err (scale_inputs w_scale waves_i spectra_for_norm fl_1) (\<lambda>nv.
     if snd nv = 0 then Inl NonFinite else Inr (fst nv / \<bar>snd nv\<bar>))"

text \<open>Lines 230 to 238: the pair \<open>(normed, normed_iv)\<close>.\<close>

definition renormalize ::
  "array \<Rightarrow> array \<Rightarrow> array option \<Rightarrow> array \<Rightarrow> array \<Rightarrow> py_error + array \<times> array" where
  "renormalize w_scale waves_i spectra_for_norm fl_1 iv_1 =
     bind_err (renorm_scale w_scale waves_i spectra_for_norm fl_1) (\<lambda>scale.
     if scale = 0 then Inl NonFinite
     else Inr (map (\<lambda>x. x * scale) fl_1, map (\<lambda>v. v / scale\<^sup>2) iv_1))"

text \<open>
  The body of the loop, lines 222 to 249, for object \<open>i\<close>: \<open>None\<close> when the object
  is skipped, else the three arrays appended to \<open>fl_rebinned\<close>, \<open>iv_rebinned\<close>
  and \<open>masks\<close>. What the two \<open>print\<close> calls write is not modelled. The call overwrites
  \<open>iv[i]\<close>, which the loop does not read again.
\<close>

definition rebin_object ::
  "nat \<Rightarrow> array list \<Rightarrow> array list \<Rightarrow> array list \<Rightarrow> array \<Rightarrow> array \<Rightarrow> array option \<Rightarrow>
   bool \<Rightarrow> bool \<Rightarrow> nat \<Rightarrow> py_error + (array \<times> array \<times> array) option" where
  "rebin_object nb fl iv waves w_rest w_scale spectra_for_norm renorm add_noise_flag i =
     bind_err (getitem waves (int i)) (\<lambda>waves_i.
     bind_err (np_log10 waves_i) (\<lambda>w_in.
     bind_err (np_log10 w_rest) (\<lambda>w_out.
     bind_err (getitem fl (int i)) (\<lambda>fl_i.
     bind_err (getitem iv (int i)) (\<lambda>iv_i.
     bind_err (fst (rebin_to_common nb w_in w_out fl_i iv_i i)) (\<lambda>t.
     bind_err (unpack3 t) (\<lambda>u.
     case u of
       (None, _, _) \<Rightarrow> Inr None
     | (Some fl_1, Some iv_1, Some m) \<Rightarrow>
         bind_err (if renorm then renormalize w_scale waves_i spectra_for_norm fl_1 iv_1
                   else Inr (fl_1, iv_1)) (\<lambda>n.
         Inr (Some (fst n, if add_noise_flag then snd n else m, m)))
     | _ \<Rightarrow> Inl TypeError)))))))"

fun rebin_loop ::
  "(nat \<Rightarrow> py_error + (array \<times> array \<times> array) option) \<Rightarrow> nat list \<Rightarrow>
   array list \<times> array list \<times> array list \<Rightarrow> py_error + array list \<times> array list \<times> array list" where
  "rebin_loop body [] acc = Inr acc"
| "rebin_loop body (i # is) acc =
     bind_err (body i) (\<lambda>r.
       case r of
         None \<Rightarrow> rebin_loop body is acc
       | Some (f, v, m) \<Rightarrow>
           rebin_loop body is (fst acc @ [f], fst (snd acc) @ [v], snd (snd acc) @ [m]))"

definition rebin_all ::
  "nat \<Rightarrow> array list \<Rightarrow> array list \<Rightarrow> array list \<Rightarrow> array \<Rightarrow> array \<Rightarrow> array option \<Rightarrow>
   bool \<Rightarrow> bool \<Rightarrow> py_error + array list \<times> array list \<times> array list" where
  "rebin_all nb fl iv waves w_rest w_scale spectra_for_norm renorm add_noise_flag =
     rebin_loop (rebin_object nb fl iv waves w_rest w_scale spectra_for_norm renorm add_noise_flag)
       [0..<length fl] ([], [], [])"

section \<open>A generator for the examples\<close>

text \<open>A deterministic stand-in for numpy's generator, whose state counts the draws:
  the Poisson draw rounds the rate down, the uniform draw is the middle of the
  interval and the normal draw is the location.\<close>

definition stub_sampler :: "nat sampler" where
  "stub_sampler =
     \<lparr>default_rng = nat,
      poisson = (\<lambda>g lam. (map (\<lambda>x. of_int \<lfloor>x\<rfloor>) lam, Suc g)),
      uniform = (\<lambda>g lo hi. ((lo + hi) / 2, Suc g)),
      normal = (\<lambda>g mu sigma n. (replicate n mu, Suc g))\<rparr>"

section \<open>Basic facts\<close>

lemma bind_err_Inr_iff:
  "bind_err m f = Inr y \<longleftrightarrow> (\<exists>x. m = Inr x \<and> f x = Inr y)"
  by (cases m) (simp_all add: bind_err_def)

lemma bind_err_Inr [simp]: "bind_err (Inr x) f = f x"
  by (simp add: bind_err_def)

lemma bind_err_Inl [simp]: "bind_err (Inl e) f = Inl e"
  by (simp add: bind_err_def)

lemma getitem_nat: "i < length xs \<Longrightarrow> getitem xs (int i) = Inr (xs ! i)"
  by (simp add: getitem_def)

section \<open>The wavelength grid\<close>

lemma get_wave_Inr:
  assumes "0 < wavemin" "0 < wavemax" "dloglam \<noteq> 0"
  shows "get_wave wavemin wavemax dloglam =
     Inr (map (\<lambda>i. 10 powr (log 10 wavemin + dloglam * real i))
            [0..<nat \<lceil>log 10 (wavemax / wavemin) / dloglam\<rceil>])"
  using assms by (simp add: get_wave_def np_arange_def)

text \<open>
  Claim C3, as the specification states it, says that the grid has
  \<open>floor(log10(wavemax/wavemin)/dloglam)\<close> entries. \<open>np.arange\<close> of a float that is
  not an integer rounds up: from 1 to 10 in steps of 3/4 in the logarithm the quotient is
  4/3 and the grid has two entries, not one.
\<close>

theorem get_wave_length_is_not_floor:
  "get_wave 1 10 (3 / 4) = Inr [1, 10 powr (3 / 4)]
   \<and> length [1, 10 powr (3 / 4 :: real)] \<noteq> nat \<lfloor>log 10 (10 / 1) / (3 / 4 :: real)\<rfloor>"
  by (simp add: get_wave_def np_arange_def upt_rec)

text \<open>
  Claim C3, amended: for \<open>wavemax > wavemin > 0\<close> and \<open>dloglam > 0\<close> the function
  returns an array of \<open>ceil(log10(wavemax/wavemin)/dloglam)\<close> entries, entry \<open>i\<close> is
  \<open>10^(log10(wavemin) + i*dloglam)\<close>, and consecutive entries have the ratio
  \<open>10^dloglam\<close>.
\<close>

theorem get_wave_length_ceiling:
  assumes "0 < wavemin" and "wavemin < wavemax" and "0 < dloglam"
  shows "\<exists>w. get_wave wavemin wavemax dloglam = Inr w
           \<and> length w = nat \<lceil>log 10 (wavemax / wavemin) / dloglam\<rceil>
           \<and> (\<forall>i<length w. w ! i = 10 powr (log 10 wavemin + real i * dloglam))
           \<and> (\<forall>i. Suc i < length w \<longrightarrow> w ! Suc i / w ! i = 10 powr dloglam)"
proof -
  let ?n = "nat \<lceil>log 10 (wavemax / wavemin) / dloglam\<rceil>"
  let ?w = "map (\<lambda>i. 10 powr (log 10 wavemin + dloglam * real i)) [0..<?n]"
  have eq: "get_wave wavemin wavemax dloglam = Inr ?w"
    using assms by (intro get_wave_Inr) simp_all
  have len: "length ?w = ?n" by simp
  have el: "?w ! i = 10 powr (log 10 wavemin + real i * dloglam)" if "i < length ?w" for i
    using that by (simp add: mult.commute)
  have ratio: "?w ! Suc i / ?w ! i = 10 powr dloglam" if "Suc i < length ?w" for i
  proof -
    have a: "?w ! Suc i = 10 powr (log 10 wavemin + real (Suc i) * dloglam)"
      using that by (intro el)
    have b: "?w ! i = 10 powr (log 10 wavemin + real i * dloglam)"
      using that by (intro el) simp
    have c: "log 10 wavemin + real (Suc i) * dloglam - (log 10 wavemin + real i * dloglam) = dloglam"
      by (simp add: algebra_simps)
    have "?w ! Suc i / ?w ! i
        = 10 powr (log 10 wavemin + real (Suc i) * dloglam - (log 10 wavemin + real i * dloglam))"
      unfolding a b by (rule powr_diff[symmetric])
    also have "\<dots> = 10 powr dloglam" by (simp only: c)
    finally show ?thesis .
  qed
  show ?thesis
    using eq len el ratio by blast
qed

text \<open>The amended claim C3 at the grid from 1 to 10 in steps of 3/4: two entries, the
  first is 1 and their ratio is \<open>10^(3/4)\<close>.\<close>

theorem get_wave_length_ceiling_witness:
  "\<exists>w. get_wave 1 10 (3 / 4) = Inr w \<and> length w = 2 \<and> w ! 0 = 1
       \<and> w ! 1 / w ! 0 = 10 powr (3 / 4)"
proof -
  have h: "(0::real) < 1" "(1::real) < 10" "(0::real) < 3 / 4" by simp_all
  obtain w where w: "get_wave 1 10 (3 / 4) = Inr w"
      "length w = nat \<lceil>log 10 (10 / 1) / (3 / 4 :: real)\<rceil>"
      "\<forall>i<length w. w ! i = 10 powr (log 10 1 + real i * (3 / 4))"
      "\<forall>i. Suc i < length w \<longrightarrow> w ! Suc i / w ! i = 10 powr (3 / 4)"
    using get_wave_length_ceiling[OF h] by blast
  have l: "length w = 2" using w(2) by simp
  have "w ! 0 = 1" using w(3) l by simp
  moreover have "w ! 1 / w ! 0 = 10 powr (3 / 4)" using w(4) l by simp
  ultimately show ?thesis using w(1) l by blast
qed

section \<open>The noise injector\<close>

text \<open>
  Claim C4: the result of \<open>add_noise\<close> does not depend on its parameter \<open>fl\<close>. For
  the same generator, module-level arrays, seed and flag, any two arguments give the
  same result, an exception included: the loop reads the module-level \<open>fl_shift\<close>.
\<close>

theorem add_noise_ignores_fl:
  "add_noise S G fl1 seed flag = add_noise S G fl2 seed flag"
  by (simp add: add_noise_def)

lemma noise_object_cong:
  "fl_shift G1 = fl_shift G2 \<Longrightarrow> w_shift G1 = w_shift G2 \<Longrightarrow>
   noise_object S G1 flag = noise_object S G2 flag"
  by (intro ext) (simp add: noise_object_def)

text \<open>
  Claim C9: the noise injector is reproducible. Two runs with the same seed, the same
  flag and the same flux and wavelength arrays in the same order give the same noisy
  flux and inverse variance, whatever else the module holds in the two runs: the
  generator is built from the seed inside the function and nothing else is random.
\<close>

theorem add_noise_reproducible:
  assumes "seed1 = seed2" and "flag1 = flag2" and "fl1 = fl2"
    and "fl_shift G1 = fl_shift G2" and "w_shift G1 = w_shift G2"
  shows "add_noise S G1 fl1 seed1 flag1 = add_noise S G2 fl2 seed2 flag2"
  using assms by (simp add: add_noise_def noise_object_cong[of G1 G2])

text \<open>Claim C9 at one object of two samples, seed 7, with noise: two runs whose
  modules differ in what they hold beside the two arrays.\<close>

theorem add_noise_reproducible_witness:
  "add_noise stub_sampler \<lparr>fl_shift = [[2, 0]], w_shift = [[4, 5]], \<dots> = ()\<rparr> [[2, 0]] 7 True
   = add_noise stub_sampler \<lparr>fl_shift = [[2, 0]], w_shift = [[4, 5]], \<dots> = (1::nat)\<rparr>
       [[2, 0]] 7 True"
  using add_noise_reproducible[of 7 7 True True "[[2, 0]]" "[[2, 0]]"
      "\<lparr>fl_shift = [[2, 0]], w_shift = [[4, 5]], \<dots> = ()\<rparr>"
      "\<lparr>fl_shift = [[2, 0]], w_shift = [[4, 5]], \<dots> = (1::nat)\<rparr>" stub_sampler]
  by simp

lemma np_divide_same_length:
  assumes "length xs = length ys" and "0 \<notin> set ys"
  shows "np_divide xs ys = Inr (map2 (/) xs ys)"
proof -
  have "\<not> list_ex (\<lambda>p. snd p = 0) (zip xs ys)"
    using assms(2) by (auto simp: list_ex_iff dest: set_zip_rightD)
  then show ?thesis
    using assms(1) by (simp add: np_divide_def broadcast_def case_prod_beta)
qed

lemma noise_object_no_noise:
  assumes "i < length (fl_shift G)" and "i < length (w_shift G)"
    and "length (fl_shift G ! i) = length (w_shift G ! i)" and "0 \<notin> set (w_shift G ! i)"
  shows "\<exists>rng'. noise_object S G False rng i =
           Inr ((map2 (/) (fl_shift G ! i) (w_shift G ! i),
                 nonzero_mask (map2 (/) (fl_shift G ! i) (w_shift G ! i))), rng')"
  using assms
  by (simp add: noise_object_def getitem_nat np_divide_same_length Let_def split: prod.splits)

lemma noise_loop_maps:
  assumes "\<And>rng i. i \<in> set js \<Longrightarrow> \<exists>rng'. body rng i = Inr ((F i, V i), rng')"
  shows "noise_loop body js rng acc = Inr (fst acc @ map F js, snd acc @ map V js)"
  using assms
proof (induction js arbitrary: rng acc)
  case Nil
  then show ?case by simp
next
  case (Cons j js)
  obtain rng' where b: "body rng j = Inr ((F j, V j), rng')"
    using Cons.prems[of j rng] by auto
  have "noise_loop body js rng' (fst acc @ [F j], snd acc @ [V j])
      = Inr (fst (fst acc @ [F j], snd acc @ [V j]) @ map F js,
             snd (fst acc @ [F j], snd acc @ [V j]) @ map V js)"
    by (rule Cons.IH) (use Cons.prems in auto)
  then show ?case
    using b by simp
qed

text \<open>
  Claim C10: with the flag false, and the arrays of every object of the same length
  with no zero wavelength, \<open>add_noise\<close> returns, for every object, the deshifted flux
  divided entry by entry by the rest-frame wavelengths, and as inverse variance the mask
  of where that quotient is not zero. Neither the seed nor the generator occurs in the
  result.
\<close>

theorem add_noise_without_noise:
  assumes "length (fl_shift G) \<le> length (w_shift G)"
    and "\<forall>i<length (fl_shift G).
           length (fl_shift G ! i) = length (w_shift G ! i) \<and> 0 \<notin> set (w_shift G ! i)"
  shows "add_noise S G fl seed False =
     Inr (map (\<lambda>i. map2 (/) (fl_shift G ! i) (w_shift G ! i)) [0..<length (fl_shift G)],
          map (\<lambda>i. nonzero_mask (map2 (/) (fl_shift G ! i) (w_shift G ! i)))
            [0..<length (fl_shift G)])"
proof -
  define F where "F = (\<lambda>i. map2 (/) (fl_shift G ! i) (w_shift G ! i))"
  define V where "V = (\<lambda>i. nonzero_mask (F i))"
  have step: "\<exists>rng'. noise_object S G False rng i = Inr ((F i, V i), rng')"
    if "i \<in> set [0..<length (fl_shift G)]" for rng i
  proof -
    have i: "i < length (fl_shift G)" using that by simp
    then have "i < length (w_shift G)" using assms(1) by simp
    with i assms(2) show ?thesis
      unfolding F_def V_def by (intro noise_object_no_noise) auto
  qed
  have "noise_loop (noise_object S G False) [0..<length (fl_shift G)] (default_rng S seed) ([], [])
      = Inr (map F [0..<length (fl_shift G)], map V [0..<length (fl_shift G)])"
    using noise_loop_maps[where body = "noise_object S G False" and F = F and V = V
        and acc = "([], [])" and js = "[0..<length (fl_shift G)]", OF step]
    by simp
  then show ?thesis by (simp add: add_noise_def F_def V_def)
qed

text \<open>Claim C10 at two objects, of two samples and of one.\<close>

theorem add_noise_without_noise_witness:
  "add_noise stub_sampler \<lparr>fl_shift = [[2, 0], [3]], w_shift = [[4, 5], [6]]\<rparr> [] 7 False
     = Inr ([[1 / 2, 0], [1 / 2]], [[1, 0], [1]])"
proof -
  have "add_noise stub_sampler \<lparr>fl_shift = [[2, 0], [3]], w_shift = [[4, 5], [6]]\<rparr> [] 7 False
     = Inr (map (\<lambda>i. map2 (/) ([[2, 0], [3]] ! i) ([[4, 5], [6]] ! i)) [0..<2],
          map (\<lambda>i. nonzero_mask (map2 (/) ([[2, 0], [3]] ! i) ([[4, 5], [6 :: real]] ! i)))
            [0..<2])"
    using add_noise_without_noise[of "\<lparr>fl_shift = [[2, 0], [3]], w_shift = [[4, 5], [6]]\<rparr>"
        stub_sampler "[]" 7]
    by (simp add: less_Suc_eq numeral_2_eq_2)
  then show ?thesis
    by (simp add: upt_rec nonzero_mask_def)
qed

section \<open>The renormaliser\<close>

text \<open>
  Claim C8, as the specification states it, says that the scale is 1 and the flux
  unchanged whenever \<open>spec_val\<close> equals \<open>norm_val\<close>. The scale divides by the absolute
  value, so for two medians that are both \<open>-2\<close> the scale is \<open>-1\<close> and the flux changes
  sign.
\<close>

theorem renormalize_negative_median_flips:
  "scale_inputs [1, 2, 3, 4] [1 / 2, 7 / 2] (Some [- 2, - 2, - 2]) [0, - 2, - 2, 0] = Inr (- 2, - 2)
   \<and> renorm_scale [1, 2, 3, 4] [1 / 2, 7 / 2] (Some [- 2, - 2, - 2]) [0, - 2, - 2, 0] = Inr (- 1)
   \<and> renormalize [1, 2, 3, 4] [1 / 2, 7 / 2] (Some [- 2, - 2, - 2]) [0, - 2, - 2, 0] [1, 1, 1, 1]
       = Inr ([0, 2, 2, 0], [1, 1, 1, 1])"
  by (simp add: renormalize_def renorm_scale_def scale_inputs_def median_def getitem_def argmax_def)

text \<open>
  Claim C8, amended: when \<open>spec_val\<close> equals \<open>norm_val\<close> and both are positive, the
  scale \<open>norm_val / abs(spec_val)\<close> is 1 and the renormaliser returns the flux and the
  inverse variance it was given; when both are negative the scale is \<open>-1\<close>, the flux
  changes sign and the inverse variance stays.
\<close>

theorem renormalize_equal_medians:
  assumes "scale_inputs w_scale waves_i spectra_for_norm fl_1 = Inr (norm_val, spec_val)"
    and "spec_val = norm_val" and "spec_val \<noteq> 0"
  shows "renorm_scale w_scale waves_i spectra_for_norm fl_1 = Inr (if 0 < spec_val then 1 else - 1)
       \<and> renormalize w_scale waves_i spectra_for_norm fl_1 iv_1
           = Inr (if 0 < spec_val then fl_1 else map uminus fl_1, iv_1)"
proof -
  have s: "renorm_scale w_scale waves_i spectra_for_norm fl_1 = Inr (if 0 < spec_val then 1 else - 1)"
    using assms by (simp add: renorm_scale_def)
  have "map (\<lambda>x. x * (- 1)) fl_1 = map uminus fl_1" by simp
  then show ?thesis
    using s by (simp add: renormalize_def)
qed

text \<open>The amended claim C8 at a reference spectrum and a flux whose medians are both 2.\<close>

theorem renormalize_equal_medians_witness:
  "renorm_scale [1, 2, 3, 4] [1 / 2, 7 / 2] (Some [2, 2, 2]) [0, 2, 2, 0] = Inr 1
   \<and> renormalize [1, 2, 3, 4] [1 / 2, 7 / 2] (Some [2, 2, 2]) [0, 2, 2, 0] [1, 1, 1, 1]
       = Inr ([0, 2, 2, 0], [1, 1, 1, 1])"
proof -
  have "scale_inputs [1, 2, 3, 4] [1 / 2, 7 / 2] (Some [2, 2, 2]) [0, 2, 2, 0] = Inr (2, 2)"
    by (simp add: scale_inputs_def median_def getitem_def argmax_def)
  from renormalize_equal_medians[OF this, of "[1, 1, 1, 1]"] show ?thesis by simp
qed

section \<open>The rebinner\<close>

text \<open>
  Claim C1 says that an empty input grid gives \<open>(None, None, None)\<close>, which the batch
  driver unpacks and skips. The function returns a tuple of two \<open>None\<close>, whatever the
  other arguments are; unpacking it into three names raises, and so does \<open>rebin_all\<close> on
  one object with an empty grid.
\<close>

theorem rebin_to_common_empty_grid:
  "rebin_to_common nb [] w_out fl iv fl_idx = (Inr [None, None], iv)
   \<and> unpack3 [None, None] = Inl ValueError
   \<and> rebin_all nbins_final [[]] [[]] [[]] [1, 10, 100] w_scale spectra_for_norm renorm flag
       = Inl ValueError"
  by (simp add: rebin_to_common_def unpack3_def rebin_all_def rebin_object_def np_log10_def getitem_def)

text \<open>
  Claim C2 says that for an input grid inside the output grid the two overlap fractions
  add up to 1 and the flux is conserved. For the output grid 0, 1, 2, 3 and the two input
  samples 3/2 and 5/2 of unit flux, whose upper bin is the last bin of the output grid,
  the branch for the upper edge is taken, its index wraps around to the first sample,
  and the fractions are 1/2 and \<open>-3/2\<close>: the output flux sums to \<open>-2\<close>, the input flux
  to 2.
\<close>

theorem rebin_to_common_upper_edge:
  "overlap_fractions nbins_final [3 / 2, 5 / 2] [0, 1, 2, 3]
     = Inr (Some \<lparr>bin_low = [1, 2], good_low = [True, True], bin_high = [2, 3],
                  good_high = [True, True], percent_low = 1 / 2, percent_high = - (3 / 2)\<rparr>)
   \<and> fst (rebin_to_common nbins_final [3 / 2, 5 / 2] [0, 1, 2, 3] [1, 1] [1, 1] 0)
     = Inr [Some [0, 1 / 2, - 1, - (3 / 2)], Some [0, 0, 2 / 5, 4 / 9], Some [0, 0, 1, 1]]
   \<and> sum_list [0, 1 / 2, - 1, - (3 / 2) :: real] = - 2 \<and> sum_list [1, 1 :: real] = 2"
  by code_simp

text \<open>The evaluation for claim C2 read off: the two fractions add up to \<open>-1\<close>.\<close>

theorem rebin_to_common_upper_edge_witness:
  "\<exists>ov. overlap_fractions nbins_final [3 / 2, 5 / 2] [0, 1, 2, 3] = Inr (Some ov)
      \<and> percent_low ov + percent_high ov = - 1"
  using rebin_to_common_upper_edge by simp

text \<open>
  Claim C6, as the specification states it, says that the caller's inverse-variance array
  holds its original values when \<open>rebin_to_common\<close> returns. The array is inverted in
  place and never inverted back: for the inverse variances 4 and 4 the caller's array
  holds 1/4 and 1/4 afterwards.
\<close>

theorem rebin_to_common_overwrites_iv:
  "snd (rebin_to_common nbins_final [3 / 2, 5 / 2] [0, 1, 2, 3, 4] [1, 1] [4, 4] 0) = [1 / 4, 1 / 4]
   \<and> snd (rebin_to_common nbins_final [3 / 2, 5 / 2] [0, 1, 2, 3, 4] [1, 1] [4, 4] 0) \<noteq> [4, 4]"
  by code_simp

lemma invert_nonzero_pure: "(\<lambda>v. if v \<noteq> 0 then 1 / v else v) = (\<lambda>v::real. if v = 0 then 0 else 1 / v)"
  by auto

lemma invert_nonzero_fixed:
  "invert_nonzero iv = iv \<longleftrightarrow> list_all (\<lambda>v. v = 0 \<or> v = 1 \<or> v = - 1) iv"
proof -
  have "(if v \<noteq> 0 then 1 / v else v) = v \<longleftrightarrow> v = 0 \<or> v = 1 \<or> v = - 1" for v :: real
  proof (cases "v = 0")
    case True
    then show ?thesis by simp
  next
    case False
    have "1 / v = v \<longleftrightarrow> v * v = 1" using False by (simp add: field_simps)
    also have "\<dots> \<longleftrightarrow> v = 1 \<or> v = - 1" by (simp add: square_eq_1_iff)
    finally show ?thesis using False by simp
  qed
  then show ?thesis
    by (simp add: invert_nonzero_def map_idI list_all_iff map_eq_conv[where g = "\<lambda>x. x", simplified])
qed

text \<open>
  Claim C6, amended: the in-place function returns what the pure formulation returns,
  an exception included; the caller's inverse-variance array is unchanged when the call
  ends before line 136 (an early return or an exception), and otherwise holds the
  variance: the reciprocal of every entry that is not zero.
\<close>

theorem rebin_to_common_in_place:
  "fst (rebin_to_common nb w_in w_out fl iv fl_idx) = rebin_to_common_pure nb w_in w_out fl iv fl_idx
   \<and> snd (rebin_to_common nb w_in w_out fl iv fl_idx)
      = (if w_in \<noteq> [] \<and> (\<exists>ov. overlap_fractions nb w_in w_out = Inr (Some ov))
         then invert_nonzero iv else iv)"
  by (auto simp: rebin_to_common_def rebin_to_common_pure_def invert_nonzero_def invert_nonzero_pure Let_def
      split: sum.splits option.splits)

text \<open>The amended claim C6 at two samples strictly inside a grid of five bins.\<close>

theorem rebin_to_common_in_place_witness:
  "fst (rebin_to_common nbins_final [3 / 2, 5 / 2] [0, 1, 2, 3, 4] [1, 1] [4, 4] 0)
     = rebin_to_common_pure nbins_final [3 / 2, 5 / 2] [0, 1, 2, 3, 4] [1, 1] [4, 4] 0
   \<and> rebin_to_common_pure nbins_final [3 / 2, 5 / 2] [0, 1, 2, 3, 4] [1, 1] [4, 4] 0
     = Inr [Some [0, 1 / 2, 1, 1 / 2, 0], Some [0, 0, 8, 0, 0], Some [0, 0, 1, 0, 0]]"
proof -
  have "rebin_to_common_pure nbins_final [3 / 2, 5 / 2] [0, 1, 2, 3, 4] [1, 1] [4, 4] 0
     = Inr [Some [0, 1 / 2, 1, 1 / 2, 0], Some [0, 0, 8, 0, 0], Some [0, 0, 1, 0, 0]]"
    by code_simp
  then show ?thesis
    using rebin_to_common_in_place[of nbins_final "[3 / 2, 5 / 2]" "[0, 1, 2, 3, 4]" "[1, 1]" "[4, 4]" 0]
    by simp
qed

subsection \<open>What a returned triple is made of\<close>

lemma overlap_fractions_short:
  assumes "length w_out < 2"
  shows "\<exists>e. overlap_fractions nb w_in w_out = Inl e"
proof -
  have g: "getitem w_out 1 = Inl IndexError"
    using assms by (simp add: getitem_def)
  show ?thesis
    by (cases "getitem w_out 0"; cases "getitem w_out (- 1)")
      (simp_all add: overlap_fractions_def g)
qed

lemma overlap_fractions_long:
  "overlap_fractions nb w_in w_out = Inr r \<Longrightarrow> 2 \<le> length w_out"
  using overlap_fractions_short[of w_out nb w_in] by (cases "length w_out < 2") auto

lemma length_bincount:
  "length (bincount x w n) = (if x = [] then n else max n (nat (Max (set x) + 1)))"
  by (simp add: bincount_def)

lemma binned_InrD:
  assumes "binned ov xs a b n = Inr v"
  shows "\<exists>bl bh xl xh. select (bin_low ov) (good_low ov) = Inr bl
           \<and> select (bin_high ov) (good_high ov) = Inr bh
           \<and> v = (bincount bl xl n, bincount bh xh n)"
  using assms by (auto simp: binned_def bind_err_Inr_iff)

lemma binned_lengths:
  assumes "binned ov xs a b n = Inr c" and "binned ov ys a' b' n = Inr v"
  shows "length (fst v) = length (fst c) \<and> length (snd v) = length (snd c)
       \<and> n \<le> length (fst c) \<and> n \<le> length (snd c)"
proof -
  from binned_InrD[OF assms(1)] obtain bl bh xl xh where
    c: "select (bin_low ov) (good_low ov) = Inr bl" "select (bin_high ov) (good_high ov) = Inr bh"
       "c = (bincount bl xl n, bincount bh xh n)" by blast
  from binned_InrD[OF assms(2)] obtain bl' bh' xl' xh' where
    v: "select (bin_low ov) (good_low ov) = Inr bl'" "select (bin_high ov) (good_high ov) = Inr bh'"
       "v = (bincount bl' xl' n, bincount bh' xh' n)" by blast
  have "bl' = bl" "bh' = bh" using c v by simp_all
  then show ?thesis using c(3) v(3) by (simp add: length_bincount)
qed

lemma np_add_long:
  assumes "np_add xs ys = Inr zs" and "2 \<le> length xs" and "2 \<le> length ys"
  shows "length xs = length ys \<and> zs = map2 (+) xs ys"
  using assms by (auto simp: np_add_def broadcast_def case_prod_beta split: if_splits)

lemma np_multiply_long:
  assumes "np_multiply xs ys = Inr zs" and "2 \<le> length xs" and "2 \<le> length ys"
  shows "length xs = length ys \<and> zs = map2 (*) xs ys"
  using assms by (auto simp: np_multiply_def broadcast_def case_prod_beta split: if_splits)

lemma accumulate_InrD:
  assumes a: "accumulate w_out fl var ov = Inr [Some fl_out, Some iv_out, Some msk]"
    and n: "2 \<le> length w_out"
  shows "\<exists>c v. binned ov fl (percent_low ov) (percent_high ov) (length w_out) = Inr c
          \<and> binned ov var ((percent_low ov)\<^sup>2) ((percent_high ov)\<^sup>2) (length w_out) = Inr v
          \<and> length (fst c) = length w_out \<and> length (snd c) = length w_out
          \<and> length (fst v) = length w_out \<and> length (snd v) = length w_out
          \<and> fl_out = map2 (+) (fst c) (snd c)
          \<and> msk = map of_bool (binary_erosion (map (\<lambda>x. x \<noteq> 0) fl_out))
          \<and> iv_out = map2 (*) (invert_back (map2 (+) (fst v) (snd v))) msk"
proof -
  from a obtain c v fl_out' var_out where
    c: "binned ov fl (percent_low ov) (percent_high ov) (length w_out) = Inr c"
    and v: "binned ov var ((percent_low ov)\<^sup>2) ((percent_high ov)\<^sup>2) (length w_out) = Inr v"
    and f: "np_add (fst c) (snd c) = Inr fl_out'"
    and l: "length fl_out' = length w_out"
    and vo: "np_add (fst v) (snd v) = Inr var_out"
    and m: "np_multiply (invert_back var_out)
              (map of_bool (binary_erosion (map (\<lambda>x. x \<noteq> 0) fl_out'))) = Inr iv_out"
    and e: "fl_out = fl_out'" "msk = map of_bool (binary_erosion (map (\<lambda>x. x \<noteq> 0) fl_out'))"
    by (auto simp: accumulate_def bind_err_Inr_iff Let_def split: if_splits)
  from binned_lengths[OF c v] have bl: "length (fst v) = length (fst c)"
    "length (snd v) = length (snd c)" "length w_out \<le> length (fst c)" "length w_out \<le> length (snd c)"
    by simp_all
  from np_add_long[OF f] bl n have f': "length (fst c) = length (snd c)" "fl_out' = map2 (+) (fst c) (snd c)"
    by simp_all
  with l have lc: "length (fst c) = length w_out" "length (snd c) = length w_out" by simp_all
  from np_add_long[OF vo] bl lc n have vo': "var_out = map2 (+) (fst v) (snd v)" by simp
  have "length (invert_back var_out) = length w_out"
    using vo' bl lc by (simp add: invert_back_def)
  moreover have "length (map of_bool (binary_erosion (map (\<lambda>x. x \<noteq> 0) fl_out')) :: real list) = length w_out"
    using l by (simp add: binary_erosion_def)
  ultimately have "iv_out = map2 (*) (invert_back var_out)
      (map of_bool (binary_erosion (map (\<lambda>x. x \<noteq> 0) fl_out')))"
    using np_multiply_long[OF m] n by simp
  then show ?thesis
    using c v lc bl f' vo' e by auto
qed

lemma rebin_to_common_InrD:
  assumes "fst (rebin_to_common nb w_in w_out fl iv fl_idx) = Inr [Some fl_out, Some iv_out, Some msk]"
  shows "\<exists>ov. overlap_fractions nb w_in w_out = Inr (Some ov)
          \<and> accumulate w_out fl (invert_nonzero iv) ov = Inr [Some fl_out, Some iv_out, Some msk]
          \<and> 2 \<le> length w_out"
  using assms
  by (auto simp: rebin_to_common_def Let_def overlap_fractions_long split: if_splits sum.splits option.splits)

lemma binary_erosion_nth:
  "j < length m \<Longrightarrow>
   binary_erosion m ! j = ((j = 0 \<or> m ! (j - 1)) \<and> m ! j \<and> (length m \<le> j + 1 \<or> m ! (j + 1)))"
  by (simp add: binary_erosion_def)

text \<open>
  Claim C7: when \<open>rebin_to_common\<close> returns flux, inverse variance and mask, all three
  have the length of the output grid; the mask is 1 at a bin exactly when the accumulated
  flux is not zero there and at each neighbouring bin of the grid, so a bin with zero flux
  is uncovered and so is every bin next to one; and the inverse variance is zero wherever
  the mask is zero.
\<close>

theorem rebin_to_common_mask:
  assumes "fst (rebin_to_common nb w_in w_out fl iv fl_idx)
             = Inr [Some fl_out, Some iv_out, Some msk]"
  shows "length fl_out = length w_out \<and> length iv_out = length w_out
       \<and> length msk = length w_out
       \<and> (\<forall>j<length w_out.
             msk ! j = (if fl_out ! j \<noteq> 0 \<and> (0 < j \<longrightarrow> fl_out ! (j - 1) \<noteq> 0)
                          \<and> (j + 1 < length w_out \<longrightarrow> fl_out ! (j + 1) \<noteq> 0)
                        then 1 else 0)
           \<and> (msk ! j = 0 \<longrightarrow> iv_out ! j = 0))"
proof -
  from rebin_to_common_InrD[OF assms] obtain ov where
    a: "accumulate w_out fl (invert_nonzero iv) ov = Inr [Some fl_out, Some iv_out, Some msk]"
    and n: "2 \<le> length w_out" by blast
  from accumulate_InrD[OF a n] obtain c v where
    lc: "length (fst c) = length w_out" "length (snd c) = length w_out"
    and lv: "length (fst v) = length w_out" "length (snd v) = length w_out"
    and f: "fl_out = map2 (+) (fst c) (snd c)"
    and m: "msk = map of_bool (binary_erosion (map (\<lambda>x. x \<noteq> 0) fl_out))"
    and i: "iv_out = map2 (*) (invert_back (map2 (+) (fst v) (snd v))) msk"
    by blast
  have lf: "length fl_out = length w_out" using f lc by simp
  have lm: "length msk = length w_out" using m lf by (simp add: binary_erosion_def)
  have li: "length iv_out = length w_out" using i lv lm by (simp add: invert_back_def)
  have mj: "msk ! j = (if fl_out ! j \<noteq> 0 \<and> (0 < j \<longrightarrow> fl_out ! (j - 1) \<noteq> 0)
                          \<and> (j + 1 < length w_out \<longrightarrow> fl_out ! (j + 1) \<noteq> 0)
                        then 1 else 0)" if "j < length w_out" for j
  proof -
    have "msk ! j = of_bool (binary_erosion (map (\<lambda>x. x \<noteq> 0) fl_out) ! j)"
      using that lf m by (simp add: binary_erosion_def)
    also have "binary_erosion (map (\<lambda>x. x \<noteq> 0) fl_out) ! j
        = (fl_out ! j \<noteq> 0 \<and> (0 < j \<longrightarrow> fl_out ! (j - 1) \<noteq> 0)
            \<and> (j + 1 < length w_out \<longrightarrow> fl_out ! (j + 1) \<noteq> 0))"
    proof -
      let ?m = "map (\<lambda>x. x \<noteq> 0) fl_out"
      have a: "?m ! j = (fl_out ! j \<noteq> 0)" using that lf by simp
      have b: "?m ! (j - 1) = (fl_out ! (j - 1) \<noteq> 0)" using that lf by simp
      have c: "?m ! (j + 1) = (fl_out ! (j + 1) \<noteq> 0)" if "j + 1 < length w_out"
        using that lf by simp
      have "binary_erosion ?m ! j
          = ((j = 0 \<or> ?m ! (j - 1)) \<and> ?m ! j \<and> (length ?m \<le> j + 1 \<or> ?m ! (j + 1)))"
        using that lf by (intro binary_erosion_nth) simp
      also have "\<dots> = (fl_out ! j \<noteq> 0 \<and> (0 < j \<longrightarrow> fl_out ! (j - 1) \<noteq> 0)
            \<and> (j + 1 < length w_out \<longrightarrow> fl_out ! (j + 1) \<noteq> 0))"
      proof (cases "j + 1 < length w_out")
        case True
        then show ?thesis unfolding a b c[OF True] using lf by auto
      next
        case False
        then show ?thesis unfolding a b using lf by auto
      qed
      finally show ?thesis .
    qed
    finally show ?thesis by simp
  qed
  have ij: "iv_out ! j = 0" if "j < length w_out" "msk ! j = 0" for j
  proof -
    have "iv_out ! j = invert_back (map2 (+) (fst v) (snd v)) ! j * msk ! j"
      using that(1) i lv lm by (simp add: invert_back_def)
    then show ?thesis using that(2) by simp
  qed
  show ?thesis using lf li lm mj ij by blast
qed

text \<open>Claim C7 at three samples of unit flux inside a grid of six bins: bin 1 holds
  flux 1/2 next to the empty bin 0, and its mask and inverse variance are zero.\<close>

theorem rebin_to_common_mask_witness:
  "fst (rebin_to_common nbins_final [3 / 2, 5 / 2, 7 / 2] [0, 1, 2, 3, 4, 5] [1, 1, 1] [4, 4, 4] 0)
     = Inr [Some [0, 1 / 2, 1, 1, 1 / 2, 0], Some [0, 0, 8, 8, 0, 0], Some [0, 0, 1, 1, 0, 0]]
   \<and> length [0, 0, 1, 1, 0, 0 :: real] = length [0, 1, 2, 3, 4, 5 :: real]
   \<and> [0, 0, 1, 1, 0, 0 :: real] ! 1 = 0 \<and> [0, 0, 8, 8, 0, 0 :: real] ! 1 = 0"
proof -
  have e: "fst (rebin_to_common nbins_final [3 / 2, 5 / 2, 7 / 2] [0, 1, 2, 3, 4, 5] [1, 1, 1] [4, 4, 4] 0)
     = Inr [Some [0, 1 / 2, 1, 1, 1 / 2, 0], Some [0, 0, 8, 8, 0, 0], Some [0, 0, 1, 1, 0, 0]]"
    by code_simp
  from rebin_to_common_mask[OF e] show ?thesis using e by simp
qed

text \<open>
  Claim C5: when \<open>rebin_to_common\<close> returns, the accumulated variance of bin \<open>j\<close> is
  the sum of the two weighted histograms of the variance. Where its magnitude is at most
  \<open>1e-2\<close> it is not inverted: the returned inverse variance is the variance itself
  times the mask, of magnitude at most \<open>1e-2\<close>. Where its magnitude is above \<open>1e-2\<close>
  the returned inverse variance is its reciprocal times the mask.
\<close>

theorem rebin_to_common_variance_threshold:
  assumes "fst (rebin_to_common nb w_in w_out fl iv fl_idx)
             = Inr [Some fl_out, Some iv_out, Some msk]"
  shows "\<exists>ov v. overlap_fractions nb w_in w_out = Inr (Some ov)
          \<and> binned ov (invert_nonzero iv) ((percent_low ov)\<^sup>2) ((percent_high ov)\<^sup>2)
                (length w_out) = Inr v
          \<and> length (fst v) = length w_out \<and> length (snd v) = length w_out
          \<and> (\<forall>j<length w_out.
                (\<bar>fst v ! j + snd v ! j\<bar> \<le> 1 / 100 \<longrightarrow>
                   iv_out ! j = (fst v ! j + snd v ! j) * msk ! j \<and> \<bar>iv_out ! j\<bar> \<le> 1 / 100)
              \<and> (1 / 100 < \<bar>fst v ! j + snd v ! j\<bar> \<longrightarrow>
                   iv_out ! j = 1 / (fst v ! j + snd v ! j) * msk ! j))"
proof -
  from rebin_to_common_InrD[OF assms] obtain ov where
    o: "overlap_fractions nb w_in w_out = Inr (Some ov)"
    and a: "accumulate w_out fl (invert_nonzero iv) ov = Inr [Some fl_out, Some iv_out, Some msk]"
    and n: "2 \<le> length w_out" by blast
  from accumulate_InrD[OF a n] obtain c v where
    v: "binned ov (invert_nonzero iv) ((percent_low ov)\<^sup>2) ((percent_high ov)\<^sup>2)
          (length w_out) = Inr v"
    and lc: "length (fst c) = length w_out" "length (snd c) = length w_out"
    and lv: "length (fst v) = length w_out" "length (snd v) = length w_out"
    and f: "fl_out = map2 (+) (fst c) (snd c)"
    and m: "msk = map of_bool (binary_erosion (map (\<lambda>x. x \<noteq> 0) fl_out))"
    and i: "iv_out = map2 (*) (invert_back (map2 (+) (fst v) (snd v))) msk"
    by blast
  have lm: "length msk = length w_out" using m f lc by (simp add: binary_erosion_def)
  have m01: "msk ! j = 0 \<or> msk ! j = 1" if "j < length w_out" for j
    using that m lm by (auto simp: of_bool_def)
  have ij: "iv_out ! j = (if 1 / 100 < \<bar>fst v ! j + snd v ! j\<bar>
                          then 1 / (fst v ! j + snd v ! j) else fst v ! j + snd v ! j) * msk ! j"
    if "j < length w_out" for j
    using that i lv lm by (simp add: invert_back_def)
  have "(\<bar>fst v ! j + snd v ! j\<bar> \<le> 1 / 100 \<longrightarrow>
                   iv_out ! j = (fst v ! j + snd v ! j) * msk ! j \<and> \<bar>iv_out ! j\<bar> \<le> 1 / 100)
              \<and> (1 / 100 < \<bar>fst v ! j + snd v ! j\<bar> \<longrightarrow>
                   iv_out ! j = 1 / (fst v ! j + snd v ! j) * msk ! j)" if "j < length w_out" for j
    using ij[OF that] m01[OF that] by auto
  then show ?thesis using o v lv by blast
qed

text \<open>Claim C5 at three samples with inverse variances 400, 400 and 4: bin 2
  accumulates the variance 1/800, which is returned as it is, and bin 3 the variance
  101/1600, which is returned inverted.\<close>

theorem rebin_to_common_variance_threshold_witness:
  "fst (rebin_to_common nbins_final [3 / 2, 5 / 2, 7 / 2] [0, 1, 2, 3, 4, 5] [1, 1, 1] [400, 400, 4] 0)
     = Inr [Some [0, 1 / 2, 1, 1, 1 / 2, 0], Some [0, 0, 1 / 800, 1600 / 101, 0, 0],
            Some [0, 0, 1, 1, 0, 0]]
   \<and> (\<exists>ov v. overlap_fractions nbins_final [3 / 2, 5 / 2, 7 / 2] [0, 1, 2, 3, 4, 5] = Inr (Some ov)
        \<and> binned ov (invert_nonzero [400, 400, 4]) ((percent_low ov)\<^sup>2) ((percent_high ov)\<^sup>2)
              (length [0, 1, 2, 3, 4, 5 :: real]) = Inr v
        \<and> length (fst v) = length [0, 1, 2, 3, 4, 5 :: real])"
proof -
  have e: "fst (rebin_to_common nbins_final [3 / 2, 5 / 2, 7 / 2] [0, 1, 2, 3, 4, 5] [1, 1, 1] [400, 400, 4] 0)
     = Inr [Some [0, 1 / 2, 1, 1, 1 / 2, 0], Some [0, 0, 1 / 800, 1600 / 101, 0, 0],
            Some [0, 0, 1, 1, 0, 0]]"
    by code_simp
  from rebin_to_common_variance_threshold[OF e] obtain ov v where
    "overlap_fractions nbins_final [3 / 2, 5 / 2, 7 / 2] [0, 1, 2, 3, 4, 5] = Inr (Some ov)"
    "binned ov (invert_nonzero [400, 400, 4]) ((percent_low ov)\<^sup>2) ((percent_high ov)\<^sup>2)
              (length [0, 1, 2, 3, 4, 5 :: real]) = Inr v"
    "length (fst v) = length [0, 1, 2, 3, 4, 5 :: real]"
    by blast
  then show ?thesis using e by blast
qed

subsection \<open>Flux conservation away from the edges of the common grid\<close>

lemma first_true_range: "first_true bs = Some k \<Longrightarrow> k < length bs"
  by (induction bs arbitrary: k) (auto split: if_splits)

lemma argmax_range:
  assumes "bs \<noteq> []"
  shows "\<exists>k<length bs. argmax bs = Inr (int k)"
proof (cases "first_true bs")
  case None
  then show ?thesis using assms by (auto simp: argmax_def intro!: exI[of _ 0])
next
  case (Some k)
  then show ?thesis using assms first_true_range[OF Some] by (auto simp: argmax_def)
qed

lemma argmax_first: "bs \<noteq> [] \<Longrightarrow> bs ! 0 \<Longrightarrow> argmax bs = Inr 0"
  by (cases bs) (auto simp: argmax_def)

lemma select_all:
  assumes "length xs = length g" and "\<forall>b\<in>set g. b"
  shows "select xs g = Inr xs"
proof -
  have "map fst (filter snd (zip xs g)) = xs"
    using assms
  proof (induction xs arbitrary: g)
    case Nil
    then show ?case by simp
  next
    case (Cons x xs)
    then show ?case by (cases g) auto
  qed
  then show ?thesis using assms(1) by (simp add: select_def)
qed

lemma sum_list_indicator:
  assumes "a < n"
  shows "sum_list (map (\<lambda>k. if a = k then c else (0::real)) [0..<n]) = c"
proof -
  have "sum_list (map (\<lambda>k. if a = k then c else 0) [0..<n]) = (\<Sum>k = 0..<n. if a = k then c else 0)"
    by (simp add: interv_sum_list_conv_sum_set_nat)
  also have "\<dots> = c" using assms by simp
  finally show ?thesis .
qed

lemma sum_list_bins:
  assumes "\<forall>p\<in>set ps. 0 \<le> fst p \<and> fst p < int n"
  shows "sum_list (map (\<lambda>k. sum_list (map snd (filter (\<lambda>p. fst p = int k) ps))) [0..<n])
       = sum_list (map snd (ps :: (int \<times> real) list))"
  using assms
proof (induction ps)
  case Nil
  then show ?case by simp
next
  case (Cons p ps)
  have p: "nat (fst p) < n" "0 \<le> fst p" using Cons.prems by auto
  have "sum_list (map (\<lambda>k. sum_list (map snd (filter (\<lambda>q. fst q = int k) (p # ps)))) [0..<n])
      = sum_list (map (\<lambda>k. (if nat (fst p) = k then snd p else 0)
            + sum_list (map snd (filter (\<lambda>q. fst q = int k) ps))) [0..<n])"
    using p(2) by (intro arg_cong[where f = sum_list] map_cong) auto
  also have "\<dots> = sum_list (map (\<lambda>k. if nat (fst p) = k then snd p else 0) [0..<n])
      + sum_list (map (\<lambda>k. sum_list (map snd (filter (\<lambda>q. fst q = int k) ps))) [0..<n])"
    by (simp add: sum_list_addf)
  also have "\<dots> = snd p + sum_list (map snd ps)"
    using Cons.IH Cons.prems sum_list_indicator[OF p(1)] by simp
  finally show ?case by simp
qed

lemma sum_list_bincount:
  assumes "length x = length w" and "\<forall>b\<in>set x. 0 \<le> b"
  shows "sum_list (bincount x w n) = sum_list w"
proof (cases "x = []")
  case True
  then show ?thesis using assms by (simp add: bincount_def)
next
  case False
  let ?L = "max n (nat (Max (set x) + 1))"
  have "\<forall>p\<in>set (zip x w). 0 \<le> fst p \<and> fst p < int ?L"
  proof
    fix p assume "p \<in> set (zip x w)"
    then have m: "fst p \<in> set x" using set_zip_leftD[of "fst p" "snd p" x w] by simp
    have le: "fst p \<le> Max (set x)" using m by (intro Max_ge) simp_all
    have nn: "0 \<le> fst p" using m assms(2) by simp
    have "fst p < int (nat (Max (set x) + 1))" using le nn by simp
    also have "\<dots> \<le> int ?L" by (intro of_nat_mono) (rule max.cobounded2)
    finally show "0 \<le> fst p \<and> fst p < int ?L" using nn by simp
  qed
  from sum_list_bins[OF this] have "sum_list (bincount x w n) = sum_list (map snd (zip x w))"
    using False by (simp add: bincount_def)
  then show ?thesis using assms(1) by simp
qed

lemma sum_list_map2_add:
  "length xs = length ys \<Longrightarrow> sum_list (map2 (+) xs ys) = sum_list xs + sum_list (ys :: real list)"
  by (induction xs ys rule: list_induct2) auto

lemma np_add_same_length:
  "length xs = length ys \<Longrightarrow> np_add xs ys = Inr (map2 (+) xs ys)"
  by (simp add: np_add_def broadcast_def case_prod_beta)

lemma np_multiply_same_length:
  "length xs = length ys \<Longrightarrow> np_multiply xs ys = Inr (map2 (*) xs ys)"
  by (simp add: np_multiply_def broadcast_def case_prod_beta)

lemma binned_all_good:
  assumes "length (bin_low ov) = length xs" and "length (bin_high ov) = length xs"
    and "length (good_low ov) = length xs" and "length (good_high ov) = length xs"
    and "\<forall>b\<in>set (good_low ov). b" and "\<forall>b\<in>set (good_high ov). b"
  shows "binned ov xs a b n
       = Inr (bincount (bin_low ov) (map (\<lambda>x. x * a) xs) n,
              bincount (bin_high ov) (map (\<lambda>x. x * b) xs) n)"
  using assms by (simp add: binned_def select_all)

lemma interior_overlap:
  assumes len: "2 \<le> length w_in"
    and nb: "length w_out \<le> nb"
    and dl: "w_out ! 0 < w_out ! 1"
    and inner: "\<forall>w\<in>set w_in. 1 \<le> \<lfloor>(w - w_out ! 0) / (w_out ! 1 - w_out ! 0)\<rfloor>
                  \<and> \<lfloor>(w - w_out ! 0) / (w_out ! 1 - w_out ! 0)\<rfloor> + 2 < int (length w_out)"
  shows "\<exists>k<length w_out. overlap_fractions nb w_in w_out =
      Inr (Some \<lparr>bin_low = map (\<lambda>w. \<lfloor>(w - w_out ! 0) / (w_out ! 1 - w_out ! 0)\<rfloor>) w_in,
                 good_low = map (\<lambda>w. True) w_in,
                 bin_high = map (\<lambda>w. \<lfloor>(w - w_out ! 0) / (w_out ! 1 - w_out ! 0)\<rfloor> + 1) w_in,
                 good_high = map (\<lambda>w. True) w_in,
                 percent_low = (w_out ! k - w_in ! 0) / (w_out ! 1 - w_out ! 0),
                 percent_high = (w_in ! 1 - w_out ! k) / (w_out ! 1 - w_out ! 0)\<rparr>)"
proof -
  define l where "l = w_out ! 0"
  define w1 where "w1 = w_out ! 1"
  let ?b = "\<lambda>w. \<lfloor>(w - l) / (w1 - l)\<rfloor>"
  let ?n = "length w_out"
  have ne: "w_in \<noteq> []" using len by auto
  then have w0: "w_in ! 0 \<in> set w_in" by simp
  have bnd: "1 \<le> ?b w" "?b w + 2 < int ?n" if "w \<in> set w_in" for w
    using inner that unfolding l_def w1_def by blast+
  have n4: "4 \<le> ?n" using bnd[OF w0] by linarith
  have nz: "w_out \<noteq> []" using n4 by auto
  have dlpos: "0 < w1 - l" using dl by (simp add: l_def w1_def)
  have above: "l < w" if "w \<in> set w_in" for w
  proof -
    have "1 \<le> (w - l) / (w1 - l)" using bnd(1)[OF that] by linarith
    then have "w1 - l \<le> w - l" using dlpos by (simp add: field_simps)
    then show ?thesis using dlpos by simp
  qed
  have g0: "getitem w_out 0 = Inr l" using n4 by (auto simp: getitem_def l_def)
  have g1: "getitem w_out 1 = Inr w1" using n4 by (auto simp: getitem_def w1_def)
  have gl: "\<exists>x. getitem w_out (- 1) = Inr x"
    using n4 by (auto simp: getitem_def)
  have a0: "argmax (map (\<lambda>w. l < w) w_in) = Inr 0"
    using ne above[OF w0] by (intro argmax_first) simp_all
  have gi0: "getitem w_in 0 = Inr (w_in ! 0)" using len by (auto simp: getitem_def)
  have gi1: "getitem w_in (0 + 1) = Inr (w_in ! 1)" using len by (auto simp: getitem_def)
  obtain k where k: "k < ?n" "argmax (map (\<lambda>w. w_in ! 0 < w) w_out) = Inr (int k)"
    using argmax_range[of "map (\<lambda>w. w_in ! 0 < w) w_out"] nz by auto
  have gk: "getitem w_out (int k) = Inr (w_out ! k)" using k(1) by (rule getitem_nat)
  have nbi: "int ?n \<le> int nb" using nb by simp
  have good_l: "(0 \<le> ?b w \<and> ?b w < int nb) = True" if "w \<in> set w_in" for w
    using bnd[OF that] nbi by (intro eqTrueI conjI; linarith)
  have good_h: "(0 \<le> ?b w + 1 \<and> ?b w + 1 < int nb) = True" if "w \<in> set w_in" for w
    using bnd[OF that] nbi by (intro eqTrueI conjI; linarith)
  have gl_eq: "map (\<lambda>b. 0 \<le> b \<and> b < int nb) (map ?b w_in) = map (\<lambda>w. True) w_in"
    unfolding map_map comp_def by (rule map_cong[OF refl]) (rule good_l)
  have gh_eq: "map (\<lambda>b. 0 \<le> b \<and> b < int nb) (map (\<lambda>b. b + 1) (map ?b w_in)) = map (\<lambda>w. True) w_in"
    unfolding map_map comp_def by (rule map_cong[OF refl]) (rule good_h)
  have gh_eq': "map (\<lambda>b. 0 \<le> b \<and> b < int nb) (map (\<lambda>w. ?b w + 1) w_in) = map (\<lambda>w. True) w_in"
    unfolding map_map comp_def by (rule map_cong[OF refl]) (rule good_h)
  have bh_eq: "map (\<lambda>b. b + 1) (map ?b w_in) = map (\<lambda>w. ?b w + 1) w_in"
    by (simp add: comp_def)
  have ex: "list_ex id (map (\<lambda>w. True) w_in)" using ne by (cases w_in) simp_all
  have sl: "select (map ?b w_in) (map (\<lambda>w. True) w_in) = Inr (map ?b w_in)"
    by (intro select_all) simp_all
  have sh: "select (map (\<lambda>w. ?b w + 1) w_in) (map (\<lambda>w. True) w_in) = Inr (map (\<lambda>w. ?b w + 1) w_in)"
    by (intro select_all) simp_all
  have "Min (set (map ?b w_in)) \<in> set (map ?b w_in)" using ne by (intro Min_in) simp_all
  then obtain u where u: "u \<in> set w_in" "Min (set (map ?b w_in)) = ?b u" by auto
  have mn: "Min (set (map ?b w_in)) \<noteq> 0" unfolding u(2) using bnd(1)[OF u(1)] by linarith
  have "Max (set (map (\<lambda>w. ?b w + 1) w_in)) \<in> set (map (\<lambda>w. ?b w + 1) w_in)"
    using ne by (intro Max_in) simp_all
  then obtain v where v: "v \<in> set w_in" "Max (set (map (\<lambda>w. ?b w + 1) w_in)) = ?b v + 1" by auto
  have mx: "Max (set (map (\<lambda>w. ?b w + 1) w_in)) \<noteq> int ?n - 1"
    unfolding v(2) using bnd(2)[OF v(1)] by linarith
  have eo: "edge_offsets w_in w_out l (map ?b w_in) (map (\<lambda>w. ?b w + 1) w_in) d = Inr d" for d
    using mn mx by (simp add: edge_offsets_def)
  obtain x where x: "getitem w_out (- 1) = Inr x" using gl by blast
  have dl0: "(w1 - l = 0) = False" using dlpos by simp
  have "overlap_fractions nb w_in w_out =
      Inr (Some \<lparr>bin_low = map ?b w_in, good_low = map (\<lambda>w. True) w_in,
                 bin_high = map (\<lambda>w. ?b w + 1) w_in, good_high = map (\<lambda>w. True) w_in,
                 percent_low = (w_out ! k - w_in ! 0) / (w1 - l),
                 percent_high = (w_in ! 1 - w_out ! k) / (w1 - l)\<rparr>)"
    unfolding overlap_fractions_def Let_def g0 bind_err_Inr x g1 a0 gi0 k(2) gk gi1 dl0 if_False
      gl_eq gh_eq bh_eq gh_eq' sl sh eo
    using ex by simp
  then show ?thesis using k(1) unfolding l_def w1_def by blast
qed


lemma length_bincount_bounded:
  assumes "x \<noteq> []" and "\<forall>b\<in>set x. b + 1 \<le> int n"
  shows "length (bincount x w n) = n"
proof -
  have "Max (set x) \<in> set x" using assms(1) by (intro Max_in) simp_all
  then have "Max (set x) + 1 \<le> int n" using assms(2) by blast
  then have "nat (Max (set x) + 1) \<le> n" by linarith
  then show ?thesis using assms(1) by (simp add: length_bincount max_def)
qed

lemma accumulate_same_length:
  assumes c: "binned ov fl (percent_low ov) (percent_high ov) (length w_out) = Inr (cl, ch)"
    and v: "binned ov var ((percent_low ov)\<^sup>2) ((percent_high ov)\<^sup>2) (length w_out) = Inr (vl, vh)"
    and l: "length cl = length w_out" "length ch = length w_out"
      "length vl = length w_out" "length vh = length w_out"
  shows "accumulate w_out fl var ov =
     Inr [Some (map2 (+) cl ch),
          Some (map2 (*) (invert_back (map2 (+) vl vh))
                  (map of_bool (binary_erosion (map (\<lambda>x. x \<noteq> 0) (map2 (+) cl ch))))),
          Some (map of_bool (binary_erosion (map (\<lambda>x. x \<noteq> 0) (map2 (+) cl ch))))]"
proof -
  have a: "np_add cl ch = Inr (map2 (+) cl ch)" using l by (intro np_add_same_length) simp
  have b: "np_add vl vh = Inr (map2 (+) vl vh)" using l by (intro np_add_same_length) simp
  have m: "np_multiply (invert_back (map2 (+) vl vh))
             (map of_bool (binary_erosion (map (\<lambda>x. x \<noteq> 0) (map2 (+) cl ch))))
         = Inr (map2 (*) (invert_back (map2 (+) vl vh))
                  (map of_bool (binary_erosion (map (\<lambda>x. x \<noteq> 0) (map2 (+) cl ch)))))"
    using l by (intro np_multiply_same_length) (simp add: invert_back_def binary_erosion_def)
  show ?thesis
    unfolding accumulate_def c v bind_err_Inr fst_conv snd_conv a b Let_def
    using l m by simp
qed

text \<open>
  Away from both edges the overlap fractions do partition the flux. Let the input have
  at least two samples, with flux and inverse variance of the same length, let its first
  two samples be as far apart as the first two points of the output grid, and let every
  sample fall into a bin from 1 to \<open>len(w_out) - 4\<close> of an output grid no longer than
  \<open>nbins_final\<close>, so that neither edge branch is taken. Then the two fractions add up
  to 1, the function returns a triple, and the output flux sums to the input flux.
\<close>

theorem rebin_to_common_interior_flux:
  assumes len: "2 \<le> length w_in" and lf: "length fl = length w_in" and li: "length iv = length w_in"
    and nb: "length w_out \<le> nb"
    and dl: "w_out ! 0 < w_out ! 1"
    and step: "w_in ! 1 - w_in ! 0 = w_out ! 1 - w_out ! 0"
    and inner: "\<forall>w\<in>set w_in. 1 \<le> \<lfloor>(w - w_out ! 0) / (w_out ! 1 - w_out ! 0)\<rfloor>
                  \<and> \<lfloor>(w - w_out ! 0) / (w_out ! 1 - w_out ! 0)\<rfloor> + 2 < int (length w_out)"
  shows "\<exists>ov fl_out iv_out msk.
           overlap_fractions nb w_in w_out = Inr (Some ov)
         \<and> percent_low ov + percent_high ov = 1
         \<and> fst (rebin_to_common nb w_in w_out fl iv fl_idx) = Inr [Some fl_out, Some iv_out, Some msk]
         \<and> sum_list fl_out = sum_list fl"
proof -
  let ?b = "\<lambda>w. \<lfloor>(w - w_out ! 0) / (w_out ! 1 - w_out ! 0)\<rfloor>"
  let ?n = "length w_out"
  from interior_overlap[OF len nb dl inner] obtain k ov where k: "k < ?n"
    and o: "overlap_fractions nb w_in w_out = Inr (Some ov)"
    and ov: "ov = \<lparr>bin_low = map ?b w_in, good_low = map (\<lambda>w. True) w_in,
                 bin_high = map (\<lambda>w. ?b w + 1) w_in, good_high = map (\<lambda>w. True) w_in,
                 percent_low = (w_out ! k - w_in ! 0) / (w_out ! 1 - w_out ! 0),
                 percent_high = (w_in ! 1 - w_out ! k) / (w_out ! 1 - w_out ! 0)\<rparr>"
    by blast
  have ne: "w_in \<noteq> []" using len by auto
  have "percent_low ov + percent_high ov
      = (w_in ! 1 - w_in ! 0) / (w_out ! 1 - w_out ! 0)"
    unfolding ov by (simp add: add_divide_distrib[symmetric])
  also have "\<dots> = 1" using step dl by simp
  finally have ps: "percent_low ov + percent_high ov = 1" .
  define var where "var = invert_nonzero iv"
  have lv: "length var = length w_in" using li by (simp add: var_def invert_nonzero_def)
  define cl where "cl = bincount (bin_low ov) (map (\<lambda>x. x * percent_low ov) fl) ?n"
  define ch where "ch = bincount (bin_high ov) (map (\<lambda>x. x * percent_high ov) fl) ?n"
  define vl where "vl = bincount (bin_low ov) (map (\<lambda>x. x * (percent_low ov)\<^sup>2) var) ?n"
  define vh where "vh = bincount (bin_high ov) (map (\<lambda>x. x * (percent_high ov)\<^sup>2) var) ?n"
  have c: "binned ov fl (percent_low ov) (percent_high ov) ?n = Inr (cl, ch)"
    unfolding cl_def ch_def by (intro binned_all_good) (simp_all add: ov lf)
  have v: "binned ov var ((percent_low ov)\<^sup>2) ((percent_high ov)\<^sup>2) ?n = Inr (vl, vh)"
    unfolding vl_def vh_def by (intro binned_all_good) (simp_all add: ov lv)
  have bl: "bin_low ov \<noteq> []" "\<forall>b\<in>set (bin_low ov). b + 1 \<le> int ?n"
    using ne inner by (auto simp: ov)
  have bh: "bin_high ov \<noteq> []" "\<forall>b\<in>set (bin_high ov). b + 1 \<le> int ?n"
    using ne inner by (auto simp: ov)
  have l: "length cl = ?n" "length ch = ?n" "length vl = ?n" "length vh = ?n"
    unfolding cl_def ch_def vl_def vh_def
    using bl bh by (simp_all add: length_bincount_bounded)
  have acc: "accumulate w_out fl var ov =
     Inr [Some (map2 (+) cl ch),
          Some (map2 (*) (invert_back (map2 (+) vl vh))
                  (map of_bool (binary_erosion (map (\<lambda>x. x \<noteq> 0) (map2 (+) cl ch))))),
          Some (map of_bool (binary_erosion (map (\<lambda>x. x \<noteq> 0) (map2 (+) cl ch))))]"
    using c v l by (rule accumulate_same_length)
  have r: "fst (rebin_to_common nb w_in w_out fl iv fl_idx) = accumulate w_out fl var ov"
    using ne o by (simp add: rebin_to_common_def var_def Let_def)
  have nonneg_l: "\<forall>b\<in>set (bin_low ov). 0 \<le> b" using inner by (auto simp: ov)
  have nonneg_h: "\<forall>b\<in>set (bin_high ov). 0 \<le> b" using inner by (auto simp: ov)
  have "sum_list cl = sum_list (map (\<lambda>x. x * percent_low ov) fl)"
    unfolding cl_def using nonneg_l by (intro sum_list_bincount) (simp_all add: ov lf)
  then have scl: "sum_list cl = sum_list fl * percent_low ov"
    by (simp add: sum_list_mult_const)
  have "sum_list ch = sum_list (map (\<lambda>x. x * percent_high ov) fl)"
    unfolding ch_def using nonneg_h by (intro sum_list_bincount) (simp_all add: ov lf)
  then have sch: "sum_list ch = sum_list fl * percent_high ov"
    by (simp add: sum_list_mult_const)
  have "sum_list (map2 (+) cl ch) = sum_list cl + sum_list ch"
    using l by (intro sum_list_map2_add) simp
  also have "\<dots> = sum_list fl * (percent_low ov + percent_high ov)"
    unfolding scl sch by (simp add: algebra_simps)
  also have "\<dots> = sum_list fl" unfolding ps by simp
  finally have s: "sum_list (map2 (+) cl ch) = sum_list fl" .
  show ?thesis using o ps r acc s by auto
qed

text \<open>The same at two samples 5/4 and 9/4 with fluxes 3 and 5 on the grid 0 to 4.\<close>

theorem rebin_to_common_interior_flux_witness:
  "\<exists>ov fl_out iv_out msk.
      overlap_fractions nbins_final [5 / 4, 9 / 4] [0, 1, 2, 3, 4] = Inr (Some ov)
    \<and> percent_low ov + percent_high ov = 1
    \<and> fst (rebin_to_common nbins_final [5 / 4, 9 / 4] [0, 1, 2, 3, 4] [3, 5] [1, 1] 0)
        = Inr [Some fl_out, Some iv_out, Some msk]
    \<and> sum_list fl_out = 8"
  using rebin_to_common_interior_flux[of "[5 / 4, 9 / 4]" "[3, 5]" "[1, 1]" "[0, 1, 2, 3, 4]" nbins_final 0]
  by (simp add: nbins_final_def)

end
